theory Spec2Isabelle
  imports Main "HOL-Library.Word"
begin

section \<open>Data model\<close>

text \<open>
  The program is one function, \<^verbatim>\<open>read_pdf(file)\<close> of \<^verbatim>\<open>app.py\<close>:
  \<^verbatim>\<open>
  def read_pdf(file):
      try:
          doc = Document(file)
          full_text = []
          for paragraph in doc.paragraphs:
              full_text.append(paragraph.text)
          return '\n'.join(full_text)
      except Exception as e:
          return str(e)
  \<close>
\<close>

text \<open>
  What a Python call can raise. The class hierarchy is the built-in one: \<open>Exception\<close>
  stands for \<^verbatim>\<open>Exception\<close> and all its subclasses; the other constructors are the
  classes derived from \<^verbatim>\<open>BaseException\<close> outside \<^verbatim>\<open>Exception\<close>, the three
  built-in ones and any further one. The string is what \<^verbatim>\<open>str(e)\<close> gives.
\<close>

datatype exception_class =
  Exception | SystemExit | KeyboardInterrupt | GeneratorExit | Other_BaseException

datatype py_exception = Raise exception_class string

fun isinstance_Exception :: "py_exception \<Rightarrow> bool" where
  "isinstance_Exception (Raise c msg) = (c = Exception)"

fun str :: "py_exception \<Rightarrow> string" where
  "str (Raise c msg) = msg"

text \<open>
  The argument \<^verbatim>\<open>file\<close> is a binary stream object. The object the upload widget
  returns is an in-memory stream that carries a declared file name, the uploaded bytes
  and a read position, and reading it never raises. The function takes any stream object,
  so the model also has the streams whose read raises: \<open>read_raises\<close> is \<open>None\<close> for
  the former and \<open>Some e\<close> for a stream object whose read raises \<open>e\<close>.
\<close>

type_synonym byte = "8 word"

record uploaded_file =
  name :: string
  getvalue :: "byte list"
  tell :: nat
  read_raises :: "py_exception option"

text \<open>
  The document object of the parsing library, as far as the function reads it: the
  list \<^verbatim>\<open>doc.paragraphs\<close> and, of each paragraph, its \<^verbatim>\<open>text\<close>. Both are
  properties that the library computes when they are read, so a read either returns
  (\<open>Inr\<close>) or raises (\<open>Inl\<close>).
\<close>

record Paragraph =
  paragraph_text :: "py_exception + string"

record document =
  paragraphs :: "py_exception + Paragraph list"

text \<open>
  \<^verbatim>\<open>Document\<close> is imported from the package \<^verbatim>\<open>docx\<close>, which is not part of the
  repository, so the call \<^verbatim>\<open>Document(file)\<close> is a parameter of the model. It either
  returns a document or raises, and it leaves the stream in some state.
\<close>

type_synonym Document_call = "uploaded_file \<Rightarrow> (py_exception + document) \<times> uploaded_file"

section \<open>The extraction function\<close>

text \<open>
  The loop \<^verbatim>\<open>for paragraph in doc.paragraphs: full_text.append(paragraph.text)\<close>,
  with the list \<^verbatim>\<open>full_text\<close> as accumulator. A read of \<^verbatim>\<open>paragraph.text\<close>
  that raises ends the loop with that exception.
\<close>

fun append_texts :: "Paragraph list \<Rightarrow> string list \<Rightarrow> py_exception + string list" where
  "append_texts [] full_text = Inr full_text"
| "append_texts (p # ps) full_text =
     (case paragraph_text p of
        Inl e \<Rightarrow> Inl e
      | Inr t \<Rightarrow> append_texts ps (full_text @ [t]))"

text \<open>Python's \<^verbatim>\<open>sep.join(xs)\<close> on a list of strings.\<close>

fun join :: "string \<Rightarrow> string list \<Rightarrow> string" where
  "join sep [] = []"
| "join sep [x] = x"
| "join sep (x # y # ys) = x @ sep @ join sep (y # ys)"

abbreviation newline :: char where
  "newline \<equiv> CHR 0x0A"

text \<open>
  The body of the \<^verbatim>\<open>try\<close>: the call of the parser, the read of
  \<^verbatim>\<open>doc.paragraphs\<close>, the loop and the join. \<open>Inl e\<close> is the exception that ends
  it, \<open>Inr s\<close> the string it returns; the second component is the stream after the call
  of the parser.
\<close>

definition try_body :: "Document_call \<Rightarrow> uploaded_file \<Rightarrow> (py_exception + string) \<times> uploaded_file" where
  "try_body Document file =
     (case Document file of
        (Inl e, file') \<Rightarrow> (Inl e, file')
      | (Inr doc, file') \<Rightarrow>
          (case paragraphs doc of
             Inl e \<Rightarrow> (Inl e, file')
           | Inr ps \<Rightarrow>
               (case append_texts ps [] of
                  Inl e \<Rightarrow> (Inl e, file')
                | Inr full_text \<Rightarrow> (Inr (join [newline] full_text), file'))))"

text \<open>
  The handler \<^verbatim>\<open>except Exception as e: return str(e)\<close>: it takes the instances of
  \<^verbatim>\<open>Exception\<close> only, any other exception goes on to the caller.
\<close>

definition except_Exception :: "py_exception \<Rightarrow> py_exception + string" where
  "except_Exception e = (if isinstance_Exception e then Inr (str e) else Inl e)"

text \<open>
  \<^verbatim>\<open>read_pdf\<close>. The result is \<open>Inr s\<close> when the function returns the string \<open>s\<close>
  and \<open>Inl e\<close> when the exception \<open>e\<close> leaves the function.
\<close>

definition read_pdf :: "Document_call \<Rightarrow> uploaded_file \<Rightarrow> (py_exception + string) \<times> uploaded_file" where
  "read_pdf Document file =
     (case try_body Document file of
        (Inr s, file') \<Rightarrow> (Inr s, file')
      | (Inl e, file') \<Rightarrow> (except_Exception e, file'))"

section \<open>Notions of the specification\<close>

text \<open>
  The newline-separated segments of a string, as \<^verbatim>\<open>s.split('\n')\<close> cuts them: a
  string with \<open>k\<close> newlines has \<open>k + 1\<close> segments, and the empty string has one, itself.
\<close>

fun newline_separated_segments :: "string \<Rightarrow> string list" where
  "newline_separated_segments [] = [[]]"
| "newline_separated_segments (c # cs) =
     (if c = newline then [] # newline_separated_segments cs
      else (c # hd (newline_separated_segments cs)) # tl (newline_separated_segments cs))"

text \<open>
  The first exception raised inside the \<^verbatim>\<open>try\<close>, if any: by the call of the parser,
  else by the read of \<^verbatim>\<open>doc.paragraphs\<close>, else by the first read of a
  \<^verbatim>\<open>paragraph.text\<close> that raises.
\<close>

fun first_raise :: "(py_exception + 'a) list \<Rightarrow> py_exception option" where
  "first_raise [] = None"
| "first_raise (Inl e # rs) = Some e"
| "first_raise (Inr r # rs) = first_raise rs"

definition raised_in_try :: "Document_call \<Rightarrow> uploaded_file \<Rightarrow> py_exception option" where
  "raised_in_try Document file =
     (case fst (Document file) of
        Inl e \<Rightarrow> Some e
      | Inr doc \<Rightarrow>
          (case paragraphs doc of
             Inl e \<Rightarrow> Some e
           | Inr ps \<Rightarrow> first_raise (map paragraph_text ps)))"

text \<open>
  A parsing library whose outcome is a function of the stream: of its bytes, its position
  and what reading it does. It reads neither the declared name nor anything outside the
  stream.
\<close>

definition reads_stream_only :: "Document_call \<Rightarrow> bool" where
  "reads_stream_only Document \<longleftrightarrow>
     (\<forall>f g. getvalue f = getvalue g \<and> tell f = tell g \<and> read_raises f = read_raises g
        \<longrightarrow> fst (Document f) = fst (Document g))"

text \<open>Python's \<^verbatim>\<open>file.seek(pos)\<close>: the stream put at the position \<open>pos\<close>.\<close>

definition seek :: "nat \<Rightarrow> uploaded_file \<Rightarrow> uploaded_file" where
  "seek pos file = file\<lparr>tell := pos\<rparr>"

section \<open>Concrete inputs\<close>

text \<open>
  A stand-in for the library on a handful of byte strings. Its reads go through the
  stream, so on a stream whose read raises the call ends with that exception. Otherwise it
  reads the bytes from the position of the stream to its end, looks them up in a table of
  outcomes, and leaves the position at the end. Content outside the table is rejected as
  the library rejects a stream that is no zip archive.
\<close>

definition table_Document :: "(byte list \<times> (py_exception + document)) list \<Rightarrow> Document_call" where
  "table_Document table file =
     (case read_raises file of
        Some e \<Rightarrow> (Inl e, file)
      | None \<Rightarrow>
          ((case map_of table (drop (tell file) (getvalue file)) of
              Some outcome \<Rightarrow> outcome
            | None \<Rightarrow> Inl (Raise Exception ''File is not a zip file'')),
           file\<lparr>tell := length (getvalue file)\<rparr>))"

definition hello_doc :: document where
  "hello_doc = \<lparr>paragraphs = Inr [\<lparr>paragraph_text = Inr ''Hello''\<rparr>, \<lparr>paragraph_text = Inr []\<rparr>,
                                   \<lparr>paragraph_text = Inr ''World''\<rparr>]\<rparr>"

definition empty_doc :: document where
  "empty_doc = \<lparr>paragraphs = Inr []\<rparr>"

definition blank_doc :: document where
  "blank_doc = \<lparr>paragraphs = Inr [\<lparr>paragraph_text = Inr []\<rparr>]\<rparr>"

definition line_break_doc :: document where
  "line_break_doc = \<lparr>paragraphs = Inr [\<lparr>paragraph_text = Inr [CHR ''a'', newline, CHR ''b'']\<rparr>]\<rparr>"

text \<open>A document object whose paragraph list cannot be read: the read raises.\<close>

definition unreadable_doc :: document where
  "unreadable_doc = \<lparr>paragraphs = Inl (Raise Exception ''no attribute body'')\<rparr>"

definition sample_table :: "(byte list \<times> (py_exception + document)) list" where
  "sample_table =
     [([1], Inr hello_doc),
      ([2], Inr empty_doc),
      ([3], Inr blank_doc),
      ([4], Inr line_break_doc),
      ([5], Inl (Raise Exception [])),
      ([6], Inr unreadable_doc)]"

definition sample_Document :: Document_call where
  "sample_Document = table_Document sample_table"

text \<open>A fresh upload: an in-memory stream of the bytes, at position 0.\<close>

definition upload :: "string \<Rightarrow> byte list \<Rightarrow> uploaded_file" where
  "upload n bs = \<lparr>name = n, getvalue = bs, tell = 0, read_raises = None\<rparr>"

text \<open>A stream object whose read raises \<open>e\<close>.\<close>

definition raising_stream :: "py_exception \<Rightarrow> uploaded_file" where
  "raising_stream e = \<lparr>name = ''stream.docx'', getvalue = [], tell = 0, read_raises = Some e\<rparr>"

section \<open>Properties of the model\<close>

lemma append_texts_Inr:
  "map paragraph_text ps = map Inr ts \<Longrightarrow> append_texts ps full_text = Inr (full_text @ ts)"
proof (induction ps arbitrary: full_text ts)
  case Nil
  then show ?case by simp
next
  case (Cons p ps)
  then obtain t ts' where "ts = t # ts'" and "paragraph_text p = Inr t"
    and "map paragraph_text ps = map Inr ts'"
    by (cases ts) auto
  with Cons.IH [of ts' "full_text @ [t]"] show ?case by simp
qed

lemma append_texts_Inl:
  "first_raise (map paragraph_text ps) = Some e \<Longrightarrow> append_texts ps full_text = Inl e"
proof (induction ps arbitrary: full_text)
  case Nil
  then show ?case by simp
next
  case (Cons p ps)
  then show ?case by (cases "paragraph_text p") simp_all
qed

lemma no_raise_texts:
  "first_raise (map paragraph_text ps) = None \<Longrightarrow> \<exists>ts. map paragraph_text ps = map Inr ts"
proof (induction ps)
  case Nil
  then show ?case by simp
next
  case (Cons p ps)
  show ?case
  proof (cases "paragraph_text p")
    case (Inl e)
    with Cons.prems show ?thesis by simp
  next
    case (Inr t)
    with Cons obtain ts where "map paragraph_text ps = map Inr ts" by auto
    with Inr have "map paragraph_text (p # ps) = map Inr (t # ts)" by simp
    then show ?thesis by blast
  qed
qed

lemma fst_read_pdf:
  "fst (read_pdf Document file) =
     (case fst (Document file) of
        Inl e \<Rightarrow> except_Exception e
      | Inr doc \<Rightarrow>
          (case paragraphs doc of
             Inl e \<Rightarrow> except_Exception e
           | Inr ps \<Rightarrow>
               (case append_texts ps [] of
                  Inl e \<Rightarrow> except_Exception e
                | Inr full_text \<Rightarrow> Inr (join [newline] full_text))))"
  by (cases "Document file") (simp add: read_pdf_def try_body_def split: sum.splits)

lemma snd_read_pdf: "snd (read_pdf Document file) = snd (Document file)"
  by (cases "Document file") (simp add: read_pdf_def try_body_def split: sum.splits)

lemma read_pdf_well_formed:
  assumes "fst (Document file) = Inr doc" and "paragraphs doc = Inr ps"
    and "map paragraph_text ps = map Inr ts"
  shows "fst (read_pdf Document file) = Inr (join [newline] ts)"
  using assms by (simp add: fst_read_pdf append_texts_Inr)

lemma read_pdf_same_outcome:
  "fst (Document f) = fst (Document g) \<Longrightarrow> fst (read_pdf Document f) = fst (read_pdf Document g)"
  by (simp only: fst_read_pdf)

lemma segments_plain: "newline \<notin> set t \<Longrightarrow> newline_separated_segments t = [t]"
  by (induction t) auto

lemma segments_cut:
  "newline \<notin> set t \<Longrightarrow>
   newline_separated_segments (t @ newline # rest) = t # newline_separated_segments rest"
  by (induction t) auto

lemma segments_join:
  "ts \<noteq> [] \<Longrightarrow> \<forall>t \<in> set ts. newline \<notin> set t \<Longrightarrow>
   newline_separated_segments (join [newline] ts) = ts"
proof (induction "[newline]" ts rule: join.induct)
  case 1
  then show ?case by simp
next
  case (2 x)
  then show ?case by (simp add: segments_plain)
next
  case (3 x y ys)
  then show ?case by (simp add: segments_cut)
qed

lemma sample_Document_reads_stream_only: "reads_stream_only sample_Document"
proof (unfold reads_stream_only_def, intro allI impI)
  fix f g :: uploaded_file
  assume "getvalue f = getvalue g \<and> tell f = tell g \<and> read_raises f = read_raises g"
  then show "fst (sample_Document f) = fst (sample_Document g)"
    by (simp add: sample_Document_def table_Document_def split: option.splits)
qed

lemmas sample_defs =
  sample_Document_def table_Document_def sample_table_def upload_def raising_stream_def

lemmas doc_defs =
  hello_doc_def empty_doc_def blank_doc_def line_break_doc_def unreadable_doc_def

section \<open>Failures of the parser\<close>




section \<open>Well-formed documents\<close>

text \<open>
  Claim C2: for the well-formed document whose paragraphs have the texts \<^verbatim>\<open>"Hello"\<close>,
  \<^verbatim>\<open>""\<close>, \<^verbatim>\<open>"World"\<close> in that order, \<^verbatim>\<open>read_pdf\<close> returns exactly
  \<^verbatim>\<open>"Hello\n\nWorld"\<close>.
\<close>

theorem read_pdf_hello_world:
  assumes "fst (Document file) = Inr doc" and "paragraphs doc = Inr ps"
    and "map paragraph_text ps = [Inr ''Hello'', Inr [], Inr ''World'']"
  shows "fst (read_pdf Document file) = Inr (''Hello'' @ [newline, newline] @ ''World'')"
proof -
  from assms(3) have "map paragraph_text ps = map Inr [''Hello'', [], ''World'']"
    by simp
  with assms(1,2) have "fst (read_pdf Document file) = Inr (join [newline] [''Hello'', [], ''World''])"
    by (rule read_pdf_well_formed)
  then show ?thesis by simp
qed

theorem read_pdf_hello_world_witness:
  "fst (sample_Document (upload ''hello.docx'' [1])) = Inr hello_doc
   \<and> paragraphs hello_doc = Inr [\<lparr>paragraph_text = Inr ''Hello''\<rparr>, \<lparr>paragraph_text = Inr []\<rparr>,
                                 \<lparr>paragraph_text = Inr ''World''\<rparr>]
   \<and> fst (read_pdf sample_Document (upload ''hello.docx'' [1]))
       = Inr (''Hello'' @ [newline, newline] @ ''World'')"
proof -
  let ?ps = "[\<lparr>paragraph_text = Inr ''Hello''\<rparr>, \<lparr>paragraph_text = Inr []\<rparr>,
              \<lparr>paragraph_text = Inr ''World''\<rparr>]"
  have h: "fst (sample_Document (upload ''hello.docx'' [1])) = Inr hello_doc"
    by (simp add: sample_defs)
  have p: "paragraphs hello_doc = Inr ?ps"
    by (simp add: hello_doc_def)
  have t: "map paragraph_text ?ps = [Inr ''Hello'', Inr [], Inr ''World'']"
    by simp
  from read_pdf_hello_world [of sample_Document "upload ''hello.docx'' [1]", OF h p t] h p
  show ?thesis by simp
qed

text \<open>
  The number of segments does not give the number of paragraphs back. A paragraph with a
  line break has a newline in its text, so one paragraph gives two segments; and the
  document with no paragraph and the document with one empty paragraph both give the
  empty string, whose only segment is the empty one.
\<close>

theorem read_pdf_segments_miscount:
  "fst (sample_Document (upload ''break.docx'' [4])) = Inr line_break_doc
   \<and> paragraphs line_break_doc = Inr [\<lparr>paragraph_text = Inr [CHR ''a'', newline, CHR ''b'']\<rparr>]
   \<and> fst (read_pdf sample_Document (upload ''break.docx'' [4])) = Inr [CHR ''a'', newline, CHR ''b'']
   \<and> length (newline_separated_segments [CHR ''a'', newline, CHR ''b'']) = 2
   \<and> fst (sample_Document (upload ''empty.docx'' [2])) = Inr empty_doc
   \<and> paragraphs empty_doc = Inr []
   \<and> fst (read_pdf sample_Document (upload ''empty.docx'' [2])) = Inr []
   \<and> length (newline_separated_segments []) = 1
   \<and> fst (sample_Document (upload ''blank.docx'' [3])) = Inr blank_doc
   \<and> paragraphs blank_doc = Inr [\<lparr>paragraph_text = Inr []\<rparr>]
   \<and> fst (read_pdf sample_Document (upload ''blank.docx'' [3])) = Inr []"
  by (simp add: fst_read_pdf sample_defs doc_defs)

text \<open>
  Claim C3, as amended: for every well-formed document with a sequence of N paragraphs,
  N at least 1, none of whose texts contains a newline, the string returned by
  \<^verbatim>\<open>read_pdf\<close> consists of exactly N newline-separated segments, and the i-th segment
  equals the plain text of the i-th paragraph of the document.
\<close>

theorem read_pdf_segments:
  assumes "fst (Document file) = Inr doc" and "paragraphs doc = Inr ps"
    and "ps \<noteq> []"
    and "\<forall>p \<in> set ps. \<exists>t. paragraph_text p = Inr t \<and> newline \<notin> set t"
  shows "\<exists>s. fst (read_pdf Document file) = Inr s
           \<and> length (newline_separated_segments s) = length ps
           \<and> (\<forall>i < length ps. paragraph_text (ps ! i) = Inr (newline_separated_segments s ! i))"
proof -
  define ts where "ts = map (\<lambda>p. projr (paragraph_text p)) ps"
  have texts: "map paragraph_text ps = map Inr ts"
    unfolding ts_def using assms(4) by (induction ps) auto
  have "ts \<noteq> []"
    using assms(3) by (simp add: ts_def)
  moreover have "\<forall>t \<in> set ts. newline \<notin> set t"
    unfolding ts_def using assms(4) by auto
  ultimately have segs: "newline_separated_segments (join [newline] ts) = ts"
    by (rule segments_join)
  have len: "length ts = length ps"
    by (simp add: ts_def)
  have nth: "\<forall>i < length ps. paragraph_text (ps ! i) = Inr (ts ! i)"
  proof (intro allI impI)
    fix i
    assume i: "i < length ps"
    then have "paragraph_text (ps ! i) = map paragraph_text ps ! i"
      by simp
    also have "\<dots> = map Inr ts ! i"
      by (simp only: texts)
    also from i len have "\<dots> = Inr (ts ! i)"
      by simp
    finally show "paragraph_text (ps ! i) = Inr (ts ! i)" .
  qed
  from assms(1,2) texts have "fst (read_pdf Document file) = Inr (join [newline] ts)"
    by (rule read_pdf_well_formed)
  with segs len nth show ?thesis by simp
qed

theorem read_pdf_segments_witness:
  "fst (sample_Document (upload ''hello.docx'' [1])) = Inr hello_doc
   \<and> paragraphs hello_doc = Inr [\<lparr>paragraph_text = Inr ''Hello''\<rparr>, \<lparr>paragraph_text = Inr []\<rparr>,
                                 \<lparr>paragraph_text = Inr ''World''\<rparr>]
   \<and> (\<exists>s. fst (read_pdf sample_Document (upload ''hello.docx'' [1])) = Inr s
           \<and> length (newline_separated_segments s) = 3
           \<and> newline_separated_segments s ! 0 = ''Hello''
           \<and> newline_separated_segments s ! 1 = []
           \<and> newline_separated_segments s ! 2 = ''World'')"
proof -
  let ?ps = "[\<lparr>paragraph_text = Inr ''Hello''\<rparr>, \<lparr>paragraph_text = Inr []\<rparr>,
              \<lparr>paragraph_text = Inr ''World''\<rparr>]"
  have h: "fst (sample_Document (upload ''hello.docx'' [1])) = Inr hello_doc"
    by (simp add: sample_defs)
  have p: "paragraphs hello_doc = Inr ?ps"
    by (simp add: hello_doc_def)
  have n: "?ps \<noteq> []"
    by simp
  have c: "\<forall>p \<in> set ?ps. \<exists>t. paragraph_text p = Inr t \<and> newline \<notin> set t"
    by simp
  from read_pdf_segments [of sample_Document "upload ''hello.docx'' [1]", OF h p n c]
  obtain s where r: "fst (read_pdf sample_Document (upload ''hello.docx'' [1])) = Inr s"
    and k: "length (newline_separated_segments s) = length ?ps"
    and e: "\<forall>i < length ?ps. paragraph_text (?ps ! i) = Inr (newline_separated_segments s ! i)"
    by blast
  from e [rule_format, of 0] have "newline_separated_segments s ! 0 = ''Hello''"
    by simp
  moreover from e [rule_format, of 1] have "newline_separated_segments s ! 1 = []"
    by simp
  moreover from e [rule_format, of 2] have "newline_separated_segments s ! 2 = ''World''"
    by simp
  moreover from k have "length (newline_separated_segments s) = 3"
    by simp
  ultimately show ?thesis using h p r by blast
qed

text \<open>
  Claim C4: for every well-formed document containing zero paragraphs, \<^verbatim>\<open>read_pdf\<close>
  returns the empty string.
\<close>

theorem read_pdf_no_paragraphs:
  assumes "fst (Document file) = Inr doc" and "paragraphs doc = Inr []"
  shows "fst (read_pdf Document file) = Inr []"
  using assms by (simp add: fst_read_pdf)

theorem read_pdf_no_paragraphs_witness:
  "fst (sample_Document (upload ''empty.docx'' [2])) = Inr empty_doc
   \<and> paragraphs empty_doc = Inr []
   \<and> fst (read_pdf sample_Document (upload ''empty.docx'' [2])) = Inr []"
proof -
  have h: "fst (sample_Document (upload ''empty.docx'' [2])) = Inr empty_doc"
    by (simp add: sample_defs)
  have n: "paragraphs empty_doc = Inr []"
    by (simp add: empty_doc_def)
  from read_pdf_no_paragraphs [of sample_Document "upload ''empty.docx'' [2]", OF h n] h n
  show ?thesis by simp
qed

section \<open>The kinds of result\<close>

text \<open>
  Not every call returns a string: the handler is \<^verbatim>\<open>except Exception\<close>, so an
  exception of another class leaves the function. The argument below is a stream object
  whose read raises \<^verbatim>\<open>SystemExit\<close>; the parser reads it, the exception passes through
  the parser and through \<^verbatim>\<open>read_pdf\<close>, and the call ends with it.
\<close>

theorem read_pdf_may_raise:
  "read_raises (raising_stream (Raise SystemExit ''1'')) = Some (Raise SystemExit ''1'')
   \<and> fst (sample_Document (raising_stream (Raise SystemExit ''1''))) = Inl (Raise SystemExit ''1'')
   \<and> fst (read_pdf sample_Document (raising_stream (Raise SystemExit ''1''))) = Inl (Raise SystemExit ''1'')"
  by (simp add: fst_read_pdf except_Exception_def sample_defs)

text \<open>
  Claim C5, as amended: for every input on which the call of the parser and the reads of
  \<^verbatim>\<open>doc.paragraphs\<close> and \<^verbatim>\<open>paragraph.text\<close> complete, \<^verbatim>\<open>read_pdf\<close> completes
  with one of three results and no other. When nothing is raised inside the
  \<^verbatim>\<open>try\<close>, it returns the newline-joined concatenation of all paragraph texts in
  order; when the first exception raised there is an instance of \<^verbatim>\<open>Exception\<close>, it
  returns the description \<^verbatim>\<open>str(e)\<close>; when it is not an instance of
  \<^verbatim>\<open>Exception\<close>, that exception propagates and no string is returned.
\<close>

theorem read_pdf_result_kinds:
  "(raised_in_try Document file = None
      \<and> (\<exists>doc ps ts. fst (Document file) = Inr doc \<and> paragraphs doc = Inr ps
            \<and> map paragraph_text ps = map Inr ts
            \<and> fst (read_pdf Document file) = Inr (join [newline] ts)))
   \<or> (\<exists>e. raised_in_try Document file = Some e \<and> isinstance_Exception e
         \<and> fst (read_pdf Document file) = Inr (str e))
   \<or> (\<exists>e. raised_in_try Document file = Some e \<and> \<not> isinstance_Exception e
         \<and> fst (read_pdf Document file) = Inl e)"
proof (cases "fst (Document file)")
  case (Inl e)
  then have "raised_in_try Document file = Some e"
    and "fst (read_pdf Document file) = except_Exception e"
    by (simp_all add: raised_in_try_def fst_read_pdf)
  then show ?thesis
    by (cases "isinstance_Exception e") (simp_all add: except_Exception_def)
next
  case doc: (Inr doc)
  show ?thesis
  proof (cases "paragraphs doc")
    case (Inl e)
    with doc have "raised_in_try Document file = Some e"
      and "fst (read_pdf Document file) = except_Exception e"
      by (simp_all add: raised_in_try_def fst_read_pdf)
    then show ?thesis
      by (cases "isinstance_Exception e") (simp_all add: except_Exception_def)
  next
    case ps: (Inr ps)
    show ?thesis
    proof (cases "first_raise (map paragraph_text ps)")
      case None
      then obtain ts where ts: "map paragraph_text ps = map Inr ts"
        using no_raise_texts by blast
      with doc ps have "fst (read_pdf Document file) = Inr (join [newline] ts)"
        by (rule read_pdf_well_formed)
      moreover from doc ps None have "raised_in_try Document file = None"
        by (simp add: raised_in_try_def)
      ultimately show ?thesis using doc ps ts by blast
    next
      case (Some e)
      with doc ps have "raised_in_try Document file = Some e"
        and "fst (read_pdf Document file) = except_Exception e"
        by (simp_all add: raised_in_try_def fst_read_pdf append_texts_Inl)
      then show ?thesis
        by (cases "isinstance_Exception e") (simp_all add: except_Exception_def)
    qed
  qed
qed

theorem read_pdf_result_kinds_witness:
  "raised_in_try sample_Document (upload ''hello.docx'' [1]) = None
   \<and> fst (read_pdf sample_Document (upload ''hello.docx'' [1]))
       = Inr (''Hello'' @ [newline, newline] @ ''World'')
   \<and> raised_in_try sample_Document (upload ''odd.docx'' [6]) = Some (Raise Exception ''no attribute body'')
   \<and> fst (read_pdf sample_Document (upload ''odd.docx'' [6])) = Inr ''no attribute body''"
proof -
  have a: "raised_in_try sample_Document (upload ''hello.docx'' [1]) = None"
    by (simp add: raised_in_try_def sample_defs doc_defs)
  have b: "raised_in_try sample_Document (upload ''odd.docx'' [6]) = Some (Raise Exception ''no attribute body'')"
    by (simp add: raised_in_try_def sample_defs doc_defs)
  have c: "fst (sample_Document (upload ''hello.docx'' [1])) = Inr hello_doc"
    by (simp add: sample_defs)
  from read_pdf_result_kinds [of sample_Document "upload ''hello.docx'' [1]"] a c
  have "\<exists>ps ts. paragraphs hello_doc = Inr ps \<and> map paragraph_text ps = map Inr ts
          \<and> fst (read_pdf sample_Document (upload ''hello.docx'' [1])) = Inr (join [newline] ts)"
    by auto
  then obtain ps ts where p: "paragraphs hello_doc = Inr ps"
    and m: "map paragraph_text ps = map Inr ts"
    and r: "fst (read_pdf sample_Document (upload ''hello.docx'' [1])) = Inr (join [newline] ts)"
    by blast
  from p have "map paragraph_text ps = [Inr ''Hello'', Inr [], Inr ''World'']"
    by (auto simp: hello_doc_def)
  with m have "map Inr ts = [Inr ''Hello'', Inr [], Inr ''World'' :: py_exception + string]"
    by simp
  then have "ts = [''Hello'', [], ''World'']"
    by (auto simp: map_eq_Cons_conv)
  with r have d: "fst (read_pdf sample_Document (upload ''hello.docx'' [1]))
                    = Inr (''Hello'' @ [newline, newline] @ ''World'')"
    by simp
  from read_pdf_result_kinds [of sample_Document "upload ''odd.docx'' [6]"] b
  have e: "fst (read_pdf sample_Document (upload ''odd.docx'' [6])) = Inr ''no attribute body''"
    by auto
  from a b d e show ?thesis by blast
qed

section \<open>Dependence on the stream\<close>

text \<open>
  Claim C7: the declared file name, and with it the extension, has no influence on the
  result of the extraction: \<^verbatim>\<open>read_pdf\<close> never reads it, so with a parser that is a
  function of the stream, two uploads of the same bytes under different names (one
  declared \<^verbatim>\<open>pdf\<close>, the other \<^verbatim>\<open>docx\<close>) give the same output.
\<close>

theorem read_pdf_ignores_name:
  assumes "reads_stream_only Document"
  shows "fst (read_pdf Document (file\<lparr>name := n\<rparr>)) = fst (read_pdf Document (file\<lparr>name := m\<rparr>))"
proof -
  have "getvalue (file\<lparr>name := n\<rparr>) = getvalue (file\<lparr>name := m\<rparr>)
        \<and> tell (file\<lparr>name := n\<rparr>) = tell (file\<lparr>name := m\<rparr>)
        \<and> read_raises (file\<lparr>name := n\<rparr>) = read_raises (file\<lparr>name := m\<rparr>)"
    by simp
  with assms have "fst (Document (file\<lparr>name := n\<rparr>)) = fst (Document (file\<lparr>name := m\<rparr>))"
    unfolding reads_stream_only_def by blast
  then show ?thesis by (rule read_pdf_same_outcome)
qed

theorem read_pdf_ignores_name_witness:
  "reads_stream_only sample_Document
   \<and> fst (read_pdf sample_Document (upload ''report.pdf'' [1]))
       = fst (read_pdf sample_Document (upload ''report.docx'' [1]))"
proof -
  note r = sample_Document_reads_stream_only
  from read_pdf_ignores_name
         [of sample_Document "''report.pdf''" "upload [] [1]" "''report.docx''", OF r] r
  show ?thesis by (simp add: upload_def)
qed

text \<open>
  Claim C8: when the input stream can be re-read, calling \<^verbatim>\<open>read_pdf\<close> twice on the
  same unconsumed stream content yields the same string both times, and the result is a
  function of the stream content. The stream can be re-read when the first read leaves its
  bytes as they were and the second call finds it where the first call found it: put back
  there by \<^verbatim>\<open>seek\<close>, which changes nothing on a stream that the read did not move. The
  parser is taken to be a function of the stream; \<^verbatim>\<open>read_pdf\<close> itself leaves the stream
  as the parser left it. Every stream with the same bytes at the same position gives the
  same result.
\<close>

theorem read_pdf_twice:
  assumes "reads_stream_only Document"
    and "getvalue (snd (Document file)) = getvalue file"
    and "read_raises (snd (Document file)) = read_raises file"
  shows "fst (read_pdf Document (seek (tell file) (snd (read_pdf Document file))))
           = fst (read_pdf Document file)
         \<and> (\<forall>g. getvalue g = getvalue file \<and> tell g = tell file \<and> read_raises g = read_raises file
               \<longrightarrow> fst (read_pdf Document g) = fst (read_pdf Document file))"
proof -
  have same: "fst (read_pdf Document g) = fst (read_pdf Document file)"
    if "getvalue g = getvalue file" and "tell g = tell file"
      and "read_raises g = read_raises file" for g
  proof -
    from assms(1) that have "fst (Document g) = fst (Document file)"
      unfolding reads_stream_only_def by blast
    then show ?thesis by (rule read_pdf_same_outcome)
  qed
  let ?again = "seek (tell file) (snd (read_pdf Document file))"
  have "getvalue ?again = getvalue file" and "tell ?again = tell file"
    and "read_raises ?again = read_raises file"
    using assms(2,3) by (simp_all add: seek_def snd_read_pdf)
  then have "fst (read_pdf Document ?again) = fst (read_pdf Document file)"
    by (rule same)
  with same show ?thesis by blast
qed

theorem read_pdf_twice_witness:
  "reads_stream_only sample_Document
   \<and> getvalue (snd (sample_Document (upload ''hello.docx'' [1]))) = getvalue (upload ''hello.docx'' [1])
   \<and> read_raises (snd (sample_Document (upload ''hello.docx'' [1]))) = read_raises (upload ''hello.docx'' [1])
   \<and> tell (upload ''hello.docx'' [1]) = 0
   \<and> tell (snd (read_pdf sample_Document (upload ''hello.docx'' [1]))) = 1
   \<and> fst (read_pdf sample_Document (upload ''hello.docx'' [1]))
       = Inr (''Hello'' @ [newline, newline] @ ''World'')
   \<and> fst (read_pdf sample_Document
            (seek (tell (upload ''hello.docx'' [1]))
                  (snd (read_pdf sample_Document (upload ''hello.docx'' [1])))))
       = Inr (''Hello'' @ [newline, newline] @ ''World'')
   \<and> fst (read_pdf sample_Document (upload ''copy.docx'' [1]))
       = Inr (''Hello'' @ [newline, newline] @ ''World'')"
proof -
  let ?f = "upload ''hello.docx'' [1]"
  note r = sample_Document_reads_stream_only
  have b: "getvalue (snd (sample_Document ?f)) = getvalue ?f"
    by (simp add: sample_defs)
  have x: "read_raises (snd (sample_Document ?f)) = read_raises ?f"
    by (simp add: sample_defs)
  have t0: "tell ?f = 0"
    by (simp add: upload_def)
  have t1: "tell (snd (read_pdf sample_Document ?f)) = 1"
    by (simp add: snd_read_pdf sample_defs)
  have v: "fst (read_pdf sample_Document ?f) = Inr (''Hello'' @ [newline, newline] @ ''World'')"
    by (simp add: fst_read_pdf sample_defs doc_defs)
  have g: "getvalue (upload ''copy.docx'' [1]) = getvalue ?f
           \<and> tell (upload ''copy.docx'' [1]) = tell ?f
           \<and> read_raises (upload ''copy.docx'' [1]) = read_raises ?f"
    by (simp add: upload_def)
  from read_pdf_twice [of sample_Document ?f, OF r b x]
  have again: "fst (read_pdf sample_Document (seek (tell ?f) (snd (read_pdf sample_Document ?f))))
                 = fst (read_pdf sample_Document ?f)"
    and copy: "fst (read_pdf sample_Document (upload ''copy.docx'' [1]))
                 = fst (read_pdf sample_Document ?f)"
    using g by blast+
  from again copy v r b x t0 t1 show ?thesis by simp
qed

section \<open>The boundary of the handler\<close>

text \<open>
  Claim C9: the handler covers the class \<^verbatim>\<open>Exception\<close> only: a failure raised during
  parsing that is not an instance of \<^verbatim>\<open>Exception\<close> (such as \<^verbatim>\<open>SystemExit\<close> or
  \<^verbatim>\<open>KeyboardInterrupt\<close>) is not caught and propagates to the caller instead of being
  converted to a string.
\<close>

theorem read_pdf_propagates_BaseException:
  assumes "fst (Document file) = Inl e" and "\<not> isinstance_Exception e"
  shows "fst (read_pdf Document file) = Inl e"
  using assms by (simp add: fst_read_pdf except_Exception_def)

theorem read_pdf_propagates_BaseException_witness:
  "fst (sample_Document (raising_stream (Raise KeyboardInterrupt []))) = Inl (Raise KeyboardInterrupt [])
   \<and> \<not> isinstance_Exception (Raise KeyboardInterrupt [])
   \<and> fst (read_pdf sample_Document (raising_stream (Raise KeyboardInterrupt [])))
       = Inl (Raise KeyboardInterrupt [])"
proof -
  have h: "fst (sample_Document (raising_stream (Raise KeyboardInterrupt [])))
             = Inl (Raise KeyboardInterrupt [])"
    by (simp add: sample_defs)
  have i: "\<not> isinstance_Exception (Raise KeyboardInterrupt [])"
    by simp
  from read_pdf_propagates_BaseException
         [of sample_Document "raising_stream (Raise KeyboardInterrupt [])", OF h i] h i
  show ?thesis by simp
qed

text \<open>
  Claim C10: when the exception raised for a failing input has an empty description,
  \<^verbatim>\<open>read_pdf\<close> returns the empty string, which is the result for a well-formed
  document with zero paragraphs as well: the empty return value does not tell a failure
  from an empty document.
\<close>

theorem read_pdf_empty_is_ambiguous:
  assumes "fst (Document bad) = Inl e" and "isinstance_Exception e" and "str e = []"
    and "fst (Document good) = Inr doc" and "paragraphs doc = Inr []"
  shows "fst (read_pdf Document bad) = Inr [] \<and> fst (read_pdf Document bad) = fst (read_pdf Document good)"
  using assms by (simp add: fst_read_pdf except_Exception_def)

theorem read_pdf_empty_is_ambiguous_witness:
  "fst (sample_Document (upload ''cut.docx'' [5])) = Inl (Raise Exception [])
   \<and> isinstance_Exception (Raise Exception []) \<and> str (Raise Exception []) = []
   \<and> fst (sample_Document (upload ''empty.docx'' [2])) = Inr empty_doc
   \<and> paragraphs empty_doc = Inr []
   \<and> fst (read_pdf sample_Document (upload ''cut.docx'' [5])) = Inr []
   \<and> fst (read_pdf sample_Document (upload ''cut.docx'' [5]))
       = fst (read_pdf sample_Document (upload ''empty.docx'' [2]))"
proof -
  have b: "fst (sample_Document (upload ''cut.docx'' [5])) = Inl (Raise Exception [])"
    by (simp add: sample_defs)
  have i: "isinstance_Exception (Raise Exception [])" and s: "str (Raise Exception []) = []"
    by simp_all
  have g: "fst (sample_Document (upload ''empty.docx'' [2])) = Inr empty_doc"
    by (simp add: sample_defs)
  have n: "paragraphs empty_doc = Inr []"
    by (simp add: empty_doc_def)
  from read_pdf_empty_is_ambiguous
         [of sample_Document "upload ''cut.docx'' [5]" _ "upload ''empty.docx'' [2]", OF b i s g n]
       b i s g n
  show ?thesis by blast
qed

end
